theory Spec2Isabelle
  imports Complex_Main
begin

section \<open>Data model of \<open>pebble/pool/base_pool.py\<close>\<close>

text \<open>
  The pool states are the module constants \<open>CREATED = 0\<close>, \<open>RUNNING = 1\<close>, \<open>CLOSED = 2\<close>,
  \<open>STOPPED = 3\<close>, \<open>ERROR = 4\<close>; the attribute \<open>state\<close> only ever holds one of them.
\<close>

datatype pool_state = CREATED | RUNNING | CLOSED | STOPPED | ERROR

text \<open>
  The exceptions the pool raises itself: \<open>RuntimeError\<close> and \<open>concurrent.futures.TimeoutError\<close>,
  each with its message.
\<close>

datatype error = RuntimeError string | TimeoutError string

text \<open>Python values that travel as arguments; a callable is known by its identity.\<close>

datatype pyvalue = PyNone | PyInt int | PyStr string

type_synonym callable = string

text \<open>
  \<open>concurrent.futures.Future\<close>: an object with an identity and a state; \<open>Future()\<close> makes a new
  object in state \<open>PENDING\<close>. The identity is the number of objects allocated before it.
\<close>

datatype future_state = PENDING | FUTURE_RUNNING | CANCELLED | FINISHED

record Future =
  future_id :: nat
  future_state :: future_state

definition Future_init :: "nat \<Rightarrow> Future" where
  "Future_init ident = \<lparr>future_id = ident, future_state = PENDING\<rparr>"

text \<open>\<open>TaskPayload = namedtuple('TaskPayload', ('function', 'args', 'kwargs'))\<close>\<close>

record TaskPayload =
  payload_function :: callable
  payload_args :: "pyvalue list"
  payload_kwargs :: "(string \<times> pyvalue) list"

text \<open>\<open>Worker = namedtuple('Worker', ('max_tasks', 'initializer', 'initargs'))\<close>\<close>

record Worker =
  max_tasks :: int
  initializer :: "callable option"
  initargs :: "pyvalue list"

text \<open>\<open>class Task\<close>: the attributes set by \<open>__init__\<close>.\<close>

record Task =
  task_id :: nat
  future :: Future
  timeout :: real
  payload :: TaskPayload
  timestamp :: real
  worker_id :: int

definition Task_init :: "nat \<Rightarrow> Future \<Rightarrow> real \<Rightarrow> TaskPayload \<Rightarrow> Task" where
  "Task_init identifier fut tmo pl =
     \<lparr>task_id = identifier, future = fut, timeout = tmo, payload = pl,
      timestamp = 0, worker_id = 0\<rparr>"

text \<open>\<open>Task.started\<close>: \<open>bool(self.timestamp > 0)\<close>.\<close>

definition started :: "Task \<Rightarrow> bool" where
  "started t = (timestamp t > 0)"

text \<open>
  \<open>queue.Queue()\<close> without a size bound: the items in arrival order (the head is the oldest)
  and the counter \<open>unfinished_tasks\<close>. \<open>put\<close> never blocks; it appends the item and counts it
  as unfinished.
\<close>

record Queue =
  items :: "Task list"
  unfinished_tasks :: nat

definition Queue_init :: Queue where
  "Queue_init = \<lparr>items = [], unfinished_tasks = 0\<rparr>"

definition put :: "Task \<Rightarrow> Queue \<Rightarrow> Queue" where
  "put t q = q\<lparr>items := items q @ [t], unfinished_tasks := Suc (unfinished_tasks q)\<rparr>"

text \<open>\<open>class PoolContext\<close>; \<open>count()\<close> is the next number it will give.\<close>

record PoolContext =
  state :: pool_state
  task_queue :: Queue
  workers :: int
  task_counter :: nat
  worker_parameters :: Worker

definition PoolContext_init :: "int \<Rightarrow> int \<Rightarrow> callable option \<Rightarrow> pyvalue list \<Rightarrow> PoolContext" where
  "PoolContext_init max_workers mtasks ini iargs =
     \<lparr>state = CREATED, task_queue = Queue_init, workers = max_workers, task_counter = 0,
      worker_parameters = \<lparr>max_tasks = mtasks, initializer = ini, initargs = iargs\<rparr>\<rparr>"

text \<open>\<open>PoolContext.alive\<close>: \<open>self.state not in (ERROR, STOPPED)\<close>.\<close>

definition alive :: "PoolContext \<Rightarrow> bool" where
  "alive c = (state c \<notin> set [ERROR, STOPPED])"

text \<open>
  A supervisor loop is a thread; the pool only asks it \<open>is_alive()\<close>. The value stored is the
  answer the thread gives when asked.
\<close>

datatype loop = Loop (is_alive: bool)

text \<open>
  \<open>class BasePool\<close>: \<open>_context\<close>, \<open>_loops\<close>, \<open>_task_counter\<close>. Two more fields stand for what
  the Python run time keeps outside the object: \<open>allocated\<close> counts the objects created so far
  (the identity the next \<open>Future()\<close> gets), and \<open>stop_pool_calls\<close> counts the calls of
  \<open>_stop_pool\<close>.
\<close>

record BasePool =
  pool_context :: PoolContext
  pool_loops :: "loop list"
  pool_task_counter :: nat
  allocated :: nat
  stop_pool_calls :: nat

definition BasePool_init :: "int \<Rightarrow> int \<Rightarrow> callable option \<Rightarrow> pyvalue list \<Rightarrow> BasePool" where
  "BasePool_init max_workers mtasks ini iargs =
     \<lparr>pool_context = PoolContext_init max_workers mtasks ini iargs,
      pool_loops = [], pool_task_counter = 0, allocated = 0, stop_pool_calls = 0\<rparr>"

abbreviation pool_state_of :: "BasePool \<Rightarrow> pool_state" where
  "pool_state_of p \<equiv> state (pool_context p)"

definition set_state :: "pool_state \<Rightarrow> BasePool \<Rightarrow> BasePool" where
  "set_state s p = p\<lparr>pool_context := (pool_context p)\<lparr>state := s\<rparr>\<rparr>"


section \<open>Operations of \<open>BasePool\<close>\<close>

text \<open>
  Modelled from the spec: \<open>BasePool._start_pool\<close> is abstract (it raises
  \<open>NotImplementedError\<close>) and the override of the concrete pool is not among the sources.
  The state table of the pool supervisor says: from \<open>CREATED\<close>, the first \<open>schedule\<close> or
  \<open>active\<close> query leads to \<open>RUNNING\<close> and spawns the loops. The number \<open>n\<close> of loops that
  are launched is a parameter; a thread that was just started is alive.
\<close>

definition start_pool :: "nat \<Rightarrow> BasePool \<Rightarrow> BasePool" where
  "start_pool n p = (set_state RUNNING p)\<lparr>pool_loops := replicate n (Loop True)\<rparr>"

text \<open>
  Modelled from the spec: \<open>BasePool._stop_pool\<close> is abstract as well. The spec gives it no
  transition of the state machine (it releases the workers), so the model leaves the state
  alone and records that the call happened.
\<close>

definition stop_pool :: "BasePool \<Rightarrow> BasePool" where
  "stop_pool p = p\<lparr>stop_pool_calls := Suc (stop_pool_calls p)\<rparr>"

text \<open>
  \<open>_update_pool_state\<close>: start a \<open>CREATED\<close> pool, then walk over \<open>self._loops\<close> and set
  \<open>ERROR\<close> at each loop that is not alive.
\<close>

definition update_pool_state :: "nat \<Rightarrow> BasePool \<Rightarrow> BasePool" where
  "update_pool_state n p =
     (let p1 = (if pool_state_of p = CREATED then start_pool n p else p)
      in foldl (\<lambda>q l. if \<not> is_alive l then set_state ERROR q else q) p1 (pool_loops p1))"

text \<open>The property \<open>active\<close>: refresh, then \<open>state in (CLOSED, RUNNING)\<close>.\<close>

definition active :: "nat \<Rightarrow> BasePool \<Rightarrow> bool \<times> BasePool" where
  "active n p =
     (let p1 = update_pool_state n p
      in (pool_state_of p1 \<in> set [CLOSED, RUNNING], p1))"

definition close :: "BasePool \<Rightarrow> BasePool" where
  "close p = set_state CLOSED p"

definition stop :: "BasePool \<Rightarrow> BasePool" where
  "stop p = set_state STOPPED p"

text \<open>
  \<open>_check_pool_state\<close>. A raise leaves the pool as the refresh made it, so the pool is
  returned beside the error.
\<close>

definition check_pool_state :: "nat \<Rightarrow> BasePool \<Rightarrow> (error + unit) \<times> BasePool" where
  "check_pool_state n p =
     (let p1 = update_pool_state n p
      in if pool_state_of p1 = ERROR
         then (Inl (RuntimeError ''Unexpected error within the Pool''), p1)
         else if pool_state_of p1 \<noteq> RUNNING
         then (Inl (RuntimeError ''The Pool is not active''), p1)
         else (Inr (), p1))"

text \<open>
  \<open>schedule\<close>: check the state, make the future, the payload and the task (with the next
  number of \<open>_task_counter\<close>), put the task in the queue, return the future.
\<close>

definition schedule ::
  "nat \<Rightarrow> callable \<Rightarrow> pyvalue list \<Rightarrow> (string \<times> pyvalue) list \<Rightarrow> real \<Rightarrow> BasePool
    \<Rightarrow> (error + Future) \<times> BasePool" where
  "schedule n func args kwargs tmo p =
     (case check_pool_state n p of
        (Inl e, p1) \<Rightarrow> (Inl e, p1)
      | (Inr _, p1) \<Rightarrow>
          (let fut = Future_init (allocated p1);
               pl = \<lparr>payload_function = func, payload_args = args, payload_kwargs = kwargs\<rparr>;
               task = Task_init (pool_task_counter p1) fut tmo pl;
               c = pool_context p1
           in (Inr fut,
               p1\<lparr>pool_context := c\<lparr>task_queue := put task (task_queue c)\<rparr>,
                  pool_task_counter := Suc (pool_task_counter p1),
                  allocated := Suc (allocated p1)\<rparr>)))"

text \<open>
  While \<open>join\<close> polls, the other threads go on: loops may die, workers finish tasks, the
  clock advances. A \<open>world\<close> is what one round of the poll finds: the answers of the loops
  to \<open>is_alive()\<close>, \<open>unfinished_tasks\<close> of the queue, and \<open>elapsed\<close>, the floating-point
  number that \<open>time.time() - tick\<close> evaluates to in that round (the subtraction is the
  machine's, its result is taken as it comes). \<open>observe\<close> brings the pool up to date with
  the round. A poll that finds no further round recorded has not returned: \<open>None\<close>.
\<close>

record world =
  elapsed :: real
  loops_now :: "loop list"
  unfinished_now :: nat

definition observe :: "world \<Rightarrow> BasePool \<Rightarrow> BasePool" where
  "observe w p =
     p\<lparr>pool_context := (pool_context p)
          \<lparr>task_queue := (task_queue (pool_context p))\<lparr>unfinished_tasks := unfinished_now w\<rparr>\<rparr>,
       pool_loops := loops_now w\<rparr>"

type_synonym 'a outcome = "((error + 'a) \<times> BasePool \<times> world list) option"

text \<open>
  \<open>timeout is not None and time.time() - tick > timeout\<close>, for a timeout that is a finite
  number: the comparison of the difference with it is exact.
\<close>

definition exceeded :: "real option \<Rightarrow> world \<Rightarrow> bool" where
  "exceeded tmo w = (case tmo of None \<Rightarrow> False | Some t \<Rightarrow> elapsed w > t)"

text \<open>The \<open>while self.active\<close> loop of \<open>_wait_queue_depletion\<close>, one world per round.\<close>

fun wait_loop :: "nat \<Rightarrow> real option \<Rightarrow> world list \<Rightarrow> BasePool \<Rightarrow> unit outcome" where
  "wait_loop n tmo [] p = None"
| "wait_loop n tmo (w # ws) p =
     (case active n (observe w p) of
        (False, p1) \<Rightarrow> Some (Inr (), p1, ws)
      | (True, p1) \<Rightarrow>
          if exceeded tmo w
          then Some (Inl (TimeoutError ''Tasks are still being executed''), p1, ws)
          else if unfinished_tasks (task_queue (pool_context p1)) \<noteq> 0
          then wait_loop n tmo ws p1
          else Some (Inr (), p1, ws))"

text \<open>
  \<open>_wait_queue_depletion\<close>: \<open>tick = time.time()\<close>, then the loop. The reading \<open>tick\<close> is
  used in the difference \<open>time.time() - tick\<close> only, which every round is given.
\<close>

definition wait_queue_depletion ::
  "nat \<Rightarrow> real option \<Rightarrow> world list \<Rightarrow> BasePool \<Rightarrow> unit outcome" where
  "wait_queue_depletion n tmo ws p = wait_loop n tmo ws p"

text \<open>\<open>join\<close>; the call \<open>self.join()\<close> at the end of the \<open>CLOSED\<close> branch has no timeout.\<close>

function join :: "nat \<Rightarrow> real option \<Rightarrow> world list \<Rightarrow> BasePool \<Rightarrow> unit outcome" where
  "join n tmo ws p =
     (if pool_state_of p = RUNNING
      then Some (Inl (RuntimeError ''The Pool is still running''), p, ws)
      else if pool_state_of p = CLOSED
      then (case wait_queue_depletion n tmo ws p of
              None \<Rightarrow> None
            | Some (Inl e, p1, ws1) \<Rightarrow> Some (Inl e, p1, ws1)
            | Some (Inr _, p1, ws1) \<Rightarrow> join n None ws1 (stop p1))
      else Some (Inr (), stop_pool p, ws))"
  by pat_completeness auto
termination
  by (relation "measure (\<lambda>(n, tmo, ws, p). if pool_state_of p = CLOSED then 1 else 0)")
     (auto simp: stop_def set_state_def)


text \<open>
  A caller that issues one \<open>schedule\<close> after another on the same pool and keeps what each
  call gave, the future or the exception it caught.
\<close>

record request =
  req_function :: callable
  req_args :: "pyvalue list"
  req_kwargs :: "(string \<times> pyvalue) list"
  req_timeout :: real

fun schedule_each ::
  "nat \<Rightarrow> request list \<Rightarrow> BasePool \<Rightarrow> (error + Future) list \<times> BasePool" where
  "schedule_each n [] p = ([], p)"
| "schedule_each n (r # rs) p =
     (case schedule n (req_function r) (req_args r) (req_kwargs r) (req_timeout r) p of
        (res, p1) \<Rightarrow> (case schedule_each n rs p1 of (ress, p2) \<Rightarrow> (res # ress, p2)))"

text \<open>
  The task that \<open>schedule\<close> builds for a request when \<open>_task_counter\<close> stands at \<open>c\<close> and
  \<open>h\<close> objects have been allocated, and the tasks of a row of requests.
\<close>

definition task_of :: "nat \<Rightarrow> nat \<Rightarrow> request \<Rightarrow> Task" where
  "task_of c h r =
     Task_init c (Future_init h) (req_timeout r)
       \<lparr>payload_function = req_function r, payload_args = req_args r,
        payload_kwargs = req_kwargs r\<rparr>"

fun tasks_from :: "nat \<Rightarrow> nat \<Rightarrow> request list \<Rightarrow> Task list" where
  "tasks_from c h [] = []"
| "tasks_from c h (r # rs) = task_of c h r # tasks_from (Suc c) (Suc h) rs"

text \<open>
  Every future held by a queued task was made by an earlier \<open>Future()\<close>: its identity is
  below the allocation count.
\<close>

definition futures_allocated :: "BasePool \<Rightarrow> bool" where
  "futures_allocated p =
     list_all (\<lambda>t. future_id (future t) < allocated p) (items (task_queue (pool_context p)))"

definition all_alive :: "loop list \<Rightarrow> bool" where
  "all_alive ls = list_all is_alive ls"

text \<open>
  A look at which a round of the wait of a \<open>CLOSED\<close> pool goes on sleeping: every loop is
  alive, the timeout is not exceeded, and the queue has unfinished tasks.
\<close>

definition pending :: "real option \<Rightarrow> world \<Rightarrow> bool" where
  "pending tmo w =
     (all_alive (loops_now w) \<and> \<not> exceeded tmo w \<and> unfinished_now w \<noteq> 0)"

section \<open>\<open>run_initializer\<close>\<close>

text \<open>
  What a call can do: return a value or raise. \<open>Exception m\<close> stands for an instance of
  \<open>Exception\<close> or of one of its subclasses; the other three are the built-in exceptions that
  derive from \<open>BaseException\<close> only, which \<open>except Exception\<close> does not catch.
\<close>

datatype raised = Exception string | SystemExit | KeyboardInterrupt | GeneratorExit

datatype call_result = Returns pyvalue | Raises raised

text \<open>
  \<open>run_initializer\<close>: the result is the value returned or the exception that leaves the
  function, beside what \<open>print_exc()\<close> wrote.
\<close>

definition run_initializer ::
  "(pyvalue list \<Rightarrow> call_result) \<Rightarrow> pyvalue list \<Rightarrow> (raised + bool) \<times> raised list" where
  "run_initializer ini iargs =
     (case ini iargs of
        Returns _ \<Rightarrow> (Inr True, [])
      | Raises (Exception m) \<Rightarrow> (Inr False, [Exception m])
      | Raises e \<Rightarrow> (Inl e, []))"


section \<open>Examples\<close>

text \<open>
  A new pool with two workers; the same pool once its loops were started by a first query
  of \<open>active\<close>; and a round of a poll in which the second of two loops has died while
  three tasks are unfinished.
\<close>

definition new_pool :: BasePool where
  "new_pool = BasePool_init 2 0 None []"

definition started_pool :: BasePool where
  "started_pool = snd (active 2 new_pool)"

definition loop_died :: world where
  "loop_died = \<lparr>elapsed = 1, loops_now = [Loop True, Loop False], unfinished_now = 3\<rparr>"

definition add_one :: request where
  "add_one = \<lparr>req_function = ''function'', req_args = [PyInt 1], req_kwargs = [],
               req_timeout = 0\<rparr>"

text \<open>
  A pool that was given three tasks and then closed, and two more rounds while it drains:
  one second after the start of the wait with two tasks still unfinished, and two seconds
  after it with none left.
\<close>

definition busy_closed_pool :: BasePool where
  "busy_closed_pool = close (snd (schedule_each 2 [add_one, add_one, add_one] new_pool))"

definition still_busy :: world where
  "still_busy = \<lparr>elapsed = 1, loops_now = [Loop True, Loop True], unfinished_now = 2\<rparr>"

definition depleted :: world where
  "depleted = \<lparr>elapsed = 2, loops_now = [Loop True, Loop True], unfinished_now = 0\<rparr>"

text \<open>Two initializers: one that raises, as in the tests, and one that returns.\<close>

definition broken_initializer :: "pyvalue list \<Rightarrow> call_result" where
  "broken_initializer iargs = Raises (Exception ''BOOM!'')"

definition plain_initializer :: "pyvalue list \<Rightarrow> call_result" where
  "plain_initializer iargs = Returns PyNone"

section \<open>Basic facts\<close>

lemma set_state_simps [simp]:
  "pool_state_of (set_state s p) = s"
  "task_queue (pool_context (set_state s p)) = task_queue (pool_context p)"
  "pool_loops (set_state s p) = pool_loops p"
  "pool_task_counter (set_state s p) = pool_task_counter p"
  "allocated (set_state s p) = allocated p"
  "stop_pool_calls (set_state s p) = stop_pool_calls p"
  "set_state s (set_state s' p) = set_state s p"
  by (simp_all add: set_state_def)

lemma start_pool_simps [simp]:
  "pool_state_of (start_pool n p) = RUNNING"
  "task_queue (pool_context (start_pool n p)) = task_queue (pool_context p)"
  "pool_loops (start_pool n p) = replicate n (Loop True)"
  "pool_task_counter (start_pool n p) = pool_task_counter p"
  "allocated (start_pool n p) = allocated p"
  "stop_pool_calls (start_pool n p) = stop_pool_calls p"
  by (simp_all add: start_pool_def set_state_def)

lemma all_alive_replicate [simp]: "all_alive (replicate n (Loop True))"
  by (simp add: all_alive_def list_all_iff)

text \<open>The walk over the loops sets \<open>ERROR\<close> exactly when one of them is not alive.\<close>

lemma walk_loops:
  "foldl (\<lambda>q l. if \<not> is_alive l then set_state ERROR q else q) q ls =
     (if all_alive ls then q else set_state ERROR q)"
  by (induction ls arbitrary: q) (auto simp: all_alive_def)

lemma update_pool_state_eq:
  "update_pool_state n p =
     (if pool_state_of p = CREATED then start_pool n p
      else if all_alive (pool_loops p) then p else set_state ERROR p)"
  by (simp add: update_pool_state_def walk_loops Let_def)

lemma refreshed_state:
  "pool_state_of (update_pool_state n p) =
     (if pool_state_of p = CREATED then RUNNING
      else if all_alive (pool_loops p) then pool_state_of p else ERROR)"
  by (simp add: update_pool_state_eq)

lemma refreshed_fields [simp]:
  "task_queue (pool_context (update_pool_state n p)) = task_queue (pool_context p)"
  "pool_task_counter (update_pool_state n p) = pool_task_counter p"
  "allocated (update_pool_state n p) = allocated p"
  "stop_pool_calls (update_pool_state n p) = stop_pool_calls p"
  by (simp_all add: update_pool_state_eq)

lemma refreshed_loops:
  "pool_loops (update_pool_state n p) =
     (if pool_state_of p = CREATED then replicate n (Loop True) else pool_loops p)"
  by (simp add: update_pool_state_eq)

text \<open>The two ways \<open>schedule\<close> ends, by the state its refresh finds.\<close>

lemma schedule_raise:
  "pool_state_of (update_pool_state n p) \<noteq> RUNNING \<Longrightarrow>
   schedule n f a k t p =
     (Inl (RuntimeError (if pool_state_of (update_pool_state n p) = ERROR
                         then ''Unexpected error within the Pool''
                         else ''The Pool is not active'')),
      update_pool_state n p)"
  by (simp add: schedule_def check_pool_state_def Let_def)

lemma schedule_accept:
  "pool_state_of (update_pool_state n p) = RUNNING \<Longrightarrow>
   schedule n f a k t p =
     (Inr (Future_init (allocated p)),
      (update_pool_state n p)
        \<lparr>pool_context := (pool_context (update_pool_state n p))
           \<lparr>task_queue := put (Task_init (pool_task_counter p) (Future_init (allocated p)) t
               \<lparr>payload_function = f, payload_args = a, payload_kwargs = k\<rparr>)
               (task_queue (pool_context p))\<rparr>,
         pool_task_counter := Suc (pool_task_counter p),
         allocated := Suc (allocated p)\<rparr>)"
  by (simp add: schedule_def check_pool_state_def Let_def)

lemma new_pool_created [simp]: "pool_state_of (BasePool_init mw mt ini ia) = CREATED"
  by (simp add: BasePool_init_def PoolContext_init_def)

lemma new_pool_simps [simp]:
  "pool_state_of new_pool = CREATED"
  "pool_loops new_pool = []"
  "pool_task_counter new_pool = 0"
  "allocated new_pool = 0"
  "stop_pool_calls new_pool = 0"
  "task_queue (pool_context new_pool) = \<lparr>items = [], unfinished_tasks = 0\<rparr>"
  by (simp_all add: new_pool_def BasePool_init_def PoolContext_init_def Queue_init_def)

lemma started_pool_simps [simp]:
  "pool_state_of started_pool = RUNNING"
  "pool_loops started_pool = [Loop True, Loop True]"
  "pool_task_counter started_pool = 0"
  "allocated started_pool = 0"
  "stop_pool_calls started_pool = 0"
  "task_queue (pool_context started_pool) = \<lparr>items = [], unfinished_tasks = 0\<rparr>"
  by (simp_all add: started_pool_def active_def Let_def update_pool_state_eq numeral_2_eq_2)

lemma observe_simps [simp]:
  "pool_state_of (observe w p) = pool_state_of p"
  "pool_loops (observe w p) = loops_now w"
  "unfinished_tasks (task_queue (pool_context (observe w p))) = unfinished_now w"
  "items (task_queue (pool_context (observe w p))) = items (task_queue (pool_context p))"
  "pool_task_counter (observe w p) = pool_task_counter p"
  "allocated (observe w p) = allocated p"
  "stop_pool_calls (observe w p) = stop_pool_calls p"
  "observe w (observe w' p) = observe w p"
  by (simp_all add: observe_def)

lemma loop_died_simps [simp]:
  "\<not> all_alive (loops_now loop_died)"
  "unfinished_now loop_died = 3"
  "elapsed loop_died = 1"
  by (simp_all add: loop_died_def all_alive_def)

section \<open>The claims\<close>

text \<open>
  C7. For every task, \<open>started\<close> holds exactly when the timestamp is greater than 0. A task
  as \<open>Task.__init__\<close> builds it has timestamp 0 and is not started, and so is the task that
  an accepted \<open>schedule\<close> has put last in the queue.
\<close>

theorem started_iff_timestamp:
  "(started t \<longleftrightarrow> 0 < timestamp t)
   \<and> timestamp (Task_init c fut tmo pl) = 0
   \<and> \<not> started (Task_init c fut tmo pl)
   \<and> (pool_state_of (update_pool_state n p) = RUNNING \<longrightarrow>
        \<not> started (last (items (task_queue (pool_context (snd (schedule n f a k tmo p)))))))"
  by (simp add: started_def Task_init_def schedule_accept put_def)

theorem started_iff_timestamp_witness:
  "pool_state_of (update_pool_state 2 new_pool) = RUNNING
   \<and> \<not> started (last (items (task_queue (pool_context
          (snd (schedule 2 ''function'' [PyInt 1] [] 0 new_pool))))))"
proof -
  have h: "pool_state_of (update_pool_state 2 new_pool) = RUNNING"
    by (simp add: refreshed_state)
  from h started_iff_timestamp [where n = 2 and p = new_pool and f = "''function''"
      and a = "[PyInt 1]" and k = "[]" and tmo = 0 and c = 0 and fut = "Future_init 0"
      and pl = "\<lparr>payload_function = ''function'', payload_args = [], payload_kwargs = []\<rparr>"
      and t = "Task_init 0 (Future_init 0) 0
                 \<lparr>payload_function = ''function'', payload_args = [], payload_kwargs = []\<rparr>"]
  show ?thesis by blast
qed

text \<open>
  C10. A pool context is alive exactly when its state is neither \<open>ERROR\<close> nor \<open>STOPPED\<close>.
  A new context is in state \<open>CREATED\<close> with an empty queue, so it is alive, and its state is
  not one of \<open>(CLOSED, RUNNING)\<close> that \<open>active\<close> tests for; the first query of \<open>active\<close> on
  the new pool starts it and answers true.
\<close>

theorem alive_iff_not_terminal:
  "(alive c \<longleftrightarrow> state c \<noteq> ERROR \<and> state c \<noteq> STOPPED)
   \<and> state (PoolContext_init mw mt ini ia) = CREATED
   \<and> items (task_queue (PoolContext_init mw mt ini ia)) = []
   \<and> unfinished_tasks (task_queue (PoolContext_init mw mt ini ia)) = 0
   \<and> alive (PoolContext_init mw mt ini ia)
   \<and> state (PoolContext_init mw mt ini ia) \<notin> set [CLOSED, RUNNING]
   \<and> pool_context (BasePool_init mw mt ini ia) = PoolContext_init mw mt ini ia
   \<and> fst (active n (BasePool_init mw mt ini ia))"
  by (simp add: alive_def PoolContext_init_def Queue_init_def BasePool_init_def active_def
      Let_def refreshed_state)

text \<open>
  C4. \<open>active\<close> refreshes the state and answers true exactly when the refreshed state is
  \<open>RUNNING\<close> or \<open>CLOSED\<close>. On a \<open>CREATED\<close> pool the query starts the pool, which is then
  \<open>RUNNING\<close>, and answers true; on a \<open>STOPPED\<close> or \<open>ERROR\<close> pool it answers false.
\<close>

theorem active_iff_running_or_closed:
  "snd (active n p) = update_pool_state n p
   \<and> (fst (active n p) \<longleftrightarrow> pool_state_of (update_pool_state n p) = RUNNING
                            \<or> pool_state_of (update_pool_state n p) = CLOSED)
   \<and> (pool_state_of p = CREATED \<longrightarrow>
        fst (active n p) \<and> pool_state_of (snd (active n p)) = RUNNING
        \<and> snd (active n p) = start_pool n p)
   \<and> (pool_state_of p = STOPPED \<or> pool_state_of p = ERROR \<longrightarrow> \<not> fst (active n p))"
  by (auto simp add: active_def Let_def refreshed_state update_pool_state_eq)

theorem active_iff_running_or_closed_witness:
  "pool_state_of new_pool = CREATED
   \<and> fst (active 2 new_pool) \<and> pool_state_of (snd (active 2 new_pool)) = RUNNING
   \<and> pool_state_of (stop new_pool) = STOPPED \<and> \<not> fst (active 2 (stop new_pool))
   \<and> pool_state_of (set_state ERROR new_pool) = ERROR
   \<and> \<not> fst (active 2 (set_state ERROR new_pool))"
proof -
  have h1: "pool_state_of new_pool = CREATED" by simp
  have h2: "pool_state_of (stop new_pool) = STOPPED" by (simp add: stop_def)
  have h3: "pool_state_of (set_state ERROR new_pool) = ERROR" by simp
  from h1 h2 h3
    active_iff_running_or_closed [where n = 2 and p = new_pool]
    active_iff_running_or_closed [where n = 2 and p = "stop new_pool"]
    active_iff_running_or_closed [where n = 2 and p = "set_state ERROR new_pool"]
  show ?thesis by blast
qed

text \<open>
  C1. When the state that the refresh of \<open>schedule\<close> leaves is not \<open>RUNNING\<close>, \<open>schedule\<close>
  raises and the queue is as it was: \<open>RuntimeError('Unexpected error within the Pool')\<close>
  when that state is \<open>ERROR\<close>, \<open>RuntimeError('The Pool is not active')\<close> when it is \<open>CLOSED\<close>
  or \<open>STOPPED\<close>. The refreshed state is never \<open>CREATED\<close>: the refresh starts a \<open>CREATED\<close>
  pool, which is then \<open>RUNNING\<close>, so \<open>schedule\<close> on it, and on a new pool, returns a future.
\<close>

theorem schedule_requires_running:
  "(pool_state_of (update_pool_state n p) \<noteq> RUNNING \<longrightarrow>
      (\<exists>e. fst (schedule n f a k t p) = Inl e)
      \<and> snd (schedule n f a k t p) = update_pool_state n p
      \<and> task_queue (pool_context (snd (schedule n f a k t p))) = task_queue (pool_context p))
   \<and> (pool_state_of (update_pool_state n p) = ERROR \<longrightarrow>
        fst (schedule n f a k t p) = Inl (RuntimeError ''Unexpected error within the Pool''))
   \<and> (pool_state_of (update_pool_state n p) = CLOSED
        \<or> pool_state_of (update_pool_state n p) = STOPPED \<longrightarrow>
        fst (schedule n f a k t p) = Inl (RuntimeError ''The Pool is not active''))
   \<and> pool_state_of (update_pool_state n p) \<noteq> CREATED
   \<and> (pool_state_of p = CREATED \<longrightarrow>
        pool_state_of (update_pool_state n p) = RUNNING
        \<and> (\<exists>fut. fst (schedule n f a k t p) = Inr fut))
   \<and> (\<exists>fut. fst (schedule n f a k t (BasePool_init mw mt ini ia)) = Inr fut)"
  by (auto simp add: schedule_raise schedule_accept refreshed_state)

theorem schedule_requires_running_witness:
  "pool_state_of (update_pool_state 2 (observe loop_died started_pool)) = ERROR
   \<and> fst (schedule 2 ''function'' [PyInt 1] [] 0 (observe loop_died started_pool))
       = Inl (RuntimeError ''Unexpected error within the Pool'')
   \<and> task_queue (pool_context
        (snd (schedule 2 ''function'' [PyInt 1] [] 0 (observe loop_died started_pool))))
       = task_queue (pool_context (observe loop_died started_pool))
   \<and> pool_state_of (update_pool_state 2 (close started_pool)) = CLOSED
   \<and> fst (schedule 2 ''function'' [PyInt 1] [] 0 (close started_pool))
       = Inl (RuntimeError ''The Pool is not active'')
   \<and> pool_state_of (update_pool_state 2 (stop started_pool)) = STOPPED
   \<and> fst (schedule 2 ''function'' [PyInt 1] [] 0 (stop started_pool))
       = Inl (RuntimeError ''The Pool is not active'')
   \<and> pool_state_of new_pool = CREATED
   \<and> (\<exists>fut. fst (schedule 2 ''function'' [PyInt 1] [] 0 new_pool) = Inr fut)"
proof -
  have h1: "pool_state_of (update_pool_state 2 (observe loop_died started_pool)) = ERROR"
    by (simp add: refreshed_state)
  have h2: "pool_state_of (update_pool_state 2 (close started_pool)) = CLOSED"
    by (simp add: refreshed_state close_def all_alive_def)
  have h3: "pool_state_of (update_pool_state 2 (stop started_pool)) = STOPPED"
    by (simp add: refreshed_state stop_def all_alive_def)
  have h4: "pool_state_of new_pool = CREATED" by simp
  have d: "ERROR \<noteq> RUNNING" "CLOSED \<noteq> RUNNING" by simp_all
  from h1 h2 h3 h4 d
    schedule_requires_running [where n = 2 and p = "observe loop_died started_pool"
      and f = "''function''" and a = "[PyInt 1]" and k = "[]" and t = 0]
    schedule_requires_running [where n = 2 and p = "close started_pool"
      and f = "''function''" and a = "[PyInt 1]" and k = "[]" and t = 0]
    schedule_requires_running [where n = 2 and p = "stop started_pool"
      and f = "''function''" and a = "[PyInt 1]" and k = "[]" and t = 0]
    schedule_requires_running [where n = 2 and p = new_pool
      and f = "''function''" and a = "[PyInt 1]" and k = "[]" and t = 0]
  show ?thesis by metis
qed

lemma schedule_state:
  "pool_state_of (snd (schedule n f a k t p)) = pool_state_of (update_pool_state n p)"
  by (cases "pool_state_of (update_pool_state n p) = RUNNING")
     (simp_all add: schedule_raise schedule_accept)

lemma schedule_loops:
  "pool_loops (snd (schedule n f a k t p)) = pool_loops (update_pool_state n p)"
  by (cases "pool_state_of (update_pool_state n p) = RUNNING")
     (simp_all add: schedule_raise schedule_accept)

lemma check_pool_state_snd: "snd (check_pool_state n p) = update_pool_state n p"
  by (simp add: check_pool_state_def Let_def)

lemma active_snd: "snd (active n p) = update_pool_state n p"
  by (simp add: active_def Let_def)

lemma error_stays: "pool_state_of p = ERROR \<Longrightarrow> pool_state_of (update_pool_state n p) = ERROR"
  by (simp add: refreshed_state)

lemma refreshed_dead:
  "\<not> all_alive (pool_loops (update_pool_state n p)) \<Longrightarrow>
   pool_state_of (update_pool_state n p) = ERROR"
  by (simp add: refreshed_state refreshed_loops split: if_splits)

text \<open>
  C8. When a refresh (by \<open>_update_pool_state\<close>, \<open>active\<close>, \<open>_check_pool_state\<close> or
  \<open>schedule\<close>) finds a loop of the pool that is not alive, the state becomes \<open>ERROR\<close>;
  \<open>_check_pool_state\<close> and \<open>schedule\<close> raise
  \<open>RuntimeError('Unexpected error within the Pool')\<close> at once, and so does every \<open>schedule\<close>
  on the pool afterwards. The loops asked are those of the pool after a start, so for a pool
  that is not \<open>CREATED\<close> they are its own loops.
\<close>
theorem dead_loop_gives_error:
  "(\<not> all_alive (pool_loops (update_pool_state n p)) \<longrightarrow>
      pool_state_of (update_pool_state n p) = ERROR
      \<and> pool_state_of (snd (active n p)) = ERROR
      \<and> pool_state_of (snd (check_pool_state n p)) = ERROR
      \<and> pool_state_of (snd (schedule n f a k t p)) = ERROR
      \<and> fst (check_pool_state n p) = Inl (RuntimeError ''Unexpected error within the Pool'')
      \<and> fst (schedule n f a k t p) = Inl (RuntimeError ''Unexpected error within the Pool'')
      \<and> fst (schedule m f' a' k' t' (update_pool_state n p))
           = Inl (RuntimeError ''Unexpected error within the Pool'')
      \<and> fst (schedule m f' a' k' t' (snd (active n p)))
           = Inl (RuntimeError ''Unexpected error within the Pool'')
      \<and> fst (schedule m f' a' k' t' (snd (check_pool_state n p)))
           = Inl (RuntimeError ''Unexpected error within the Pool'')
      \<and> fst (schedule m f' a' k' t' (snd (schedule n f a k t p)))
           = Inl (RuntimeError ''Unexpected error within the Pool''))
   \<and> (pool_state_of p \<noteq> CREATED \<and> \<not> all_alive (pool_loops p) \<longrightarrow>
        \<not> all_alive (pool_loops (update_pool_state n p)))
   \<and> (pool_state_of p = ERROR \<longrightarrow>
        fst (schedule n f a k t p) = Inl (RuntimeError ''Unexpected error within the Pool'')
        \<and> pool_state_of (snd (schedule n f a k t p)) = ERROR)"
proof -
  have a: "fst (schedule m f' a' k' t' q) = Inl (RuntimeError ''Unexpected error within the Pool'')"
    if "pool_state_of q = ERROR" for q m f' a' k' t'
    using that by (simp add: schedule_raise error_stays)
  have b: "fst (schedule n f a k t p) = Inl (RuntimeError ''Unexpected error within the Pool'')"
    if "pool_state_of (update_pool_state n p) = ERROR"
    using that by (simp add: schedule_raise)
  have c: "fst (check_pool_state n p) = Inl (RuntimeError ''Unexpected error within the Pool'')"
    if "pool_state_of (update_pool_state n p) = ERROR"
    using that by (simp add: check_pool_state_def Let_def)
  have d: "\<not> all_alive (pool_loops (update_pool_state n p))"
    if "pool_state_of p \<noteq> CREATED" "\<not> all_alive (pool_loops p)"
    using that by (simp add: refreshed_loops)
  show ?thesis
    using a b c d refreshed_dead [of n p]
    by (simp add: schedule_state active_snd check_pool_state_snd error_stays)
qed

theorem dead_loop_gives_error_witness:
  "\<not> all_alive (pool_loops (update_pool_state 2 (observe loop_died started_pool)))
   \<and> pool_state_of (observe loop_died started_pool) = RUNNING
   \<and> pool_state_of (snd (active 2 (observe loop_died started_pool))) = ERROR
   \<and> fst (schedule 2 ''function'' [PyInt 1] [] 0 (observe loop_died started_pool))
        = Inl (RuntimeError ''Unexpected error within the Pool'')
   \<and> fst (schedule 2 ''function'' [PyInt 1] [] 0 (snd (active 2 (observe loop_died started_pool))))
        = Inl (RuntimeError ''Unexpected error within the Pool'')"
proof -
  have h1: "\<not> all_alive (pool_loops (update_pool_state 2 (observe loop_died started_pool)))"
    by (simp add: refreshed_loops)
  have h2: "pool_state_of (observe loop_died started_pool) = RUNNING" by simp
  from h1 h2
    dead_loop_gives_error [where n = 2 and p = "observe loop_died started_pool"
      and f = "''function''" and a = "[PyInt 1]" and k = "[]" and t = 0
      and m = 2 and f' = "''function''" and a' = "[PyInt 1]" and k' = "[]" and t' = 0]
  show ?thesis by blast
qed

lemma schedule_refused:
  "pool_state_of p \<noteq> CREATED \<Longrightarrow> pool_state_of p \<noteq> RUNNING \<Longrightarrow>
   (\<exists>e. fst (schedule n f a k t p) = Inl e)
   \<and> pool_state_of (snd (schedule n f a k t p)) \<noteq> CREATED
   \<and> pool_state_of (snd (schedule n f a k t p)) \<noteq> RUNNING
   \<and> task_queue (pool_context (snd (schedule n f a k t p))) = task_queue (pool_context p)"
  by (simp add: schedule_raise refreshed_state)

lemma schedule_each_refused:
  "pool_state_of p \<noteq> CREATED \<Longrightarrow> pool_state_of p \<noteq> RUNNING \<Longrightarrow>
   list_all isl (fst (schedule_each n rs p))
   \<and> length (fst (schedule_each n rs p)) = length rs
   \<and> task_queue (pool_context (snd (schedule_each n rs p))) = task_queue (pool_context p)"
proof (induction rs arbitrary: p)
  case Nil
  then show ?case by simp
next
  case (Cons r rs)
  obtain res p1 where s: "schedule n (req_function r) (req_args r) (req_kwargs r) (req_timeout r) p = (res, p1)"
    by (cases "schedule n (req_function r) (req_args r) (req_kwargs r) (req_timeout r) p")
  from schedule_refused [OF Cons.prems, of n "req_function r" "req_args r" "req_kwargs r" "req_timeout r"] s
  have r: "isl res" "pool_state_of p1 \<noteq> CREATED" "pool_state_of p1 \<noteq> RUNNING"
    "task_queue (pool_context p1) = task_queue (pool_context p)"
    by auto
  from Cons.IH [OF r(2,3)] r(1,4) s show ?case
    by (auto split: prod.splits)
qed

text \<open>
  C6. \<open>close\<close> twice is \<open>close\<close> once, with state \<open>CLOSED\<close>; \<open>stop\<close> twice is \<open>stop\<close> once,
  with state \<open>STOPPED\<close>. After \<open>close\<close> the state is not \<open>RUNNING\<close>, and every \<open>schedule\<close>
  that follows raises and leaves the queue as it was.
\<close>
theorem close_stop_idempotent:
  "close (close p) = close p \<and> pool_state_of (close p) = CLOSED
   \<and> stop (stop p) = stop p \<and> pool_state_of (stop p) = STOPPED
   \<and> pool_state_of (close p) \<noteq> RUNNING
   \<and> (\<exists>e. fst (schedule n f a k t (close p)) = Inl e)
   \<and> task_queue (pool_context (snd (schedule n f a k t (close p)))) = task_queue (pool_context p)
   \<and> list_all isl (fst (schedule_each n rs (close p)))
   \<and> length (fst (schedule_each n rs (close p))) = length rs
   \<and> task_queue (pool_context (snd (schedule_each n rs (close p)))) = task_queue (pool_context p)"
proof -
  have c: "pool_state_of (close p) \<noteq> CREATED" "pool_state_of (close p) \<noteq> RUNNING"
    "task_queue (pool_context (close p)) = task_queue (pool_context p)"
    by (simp_all add: close_def)
  from schedule_refused [OF c(1,2)] schedule_each_refused [OF c(1,2)] c(3)
  show ?thesis by (simp add: close_def stop_def)
qed

text \<open>
  C9. \<open>run_initializer\<close> returns \<open>True\<close> exactly when the call of the initializer returns,
  and \<open>False\<close> exactly when the call raises an \<open>Exception\<close>, which it prints and never lets
  through to its caller.
\<close>
theorem run_initializer_result:
  "(fst (run_initializer ini ia) = Inr True \<longleftrightarrow> (\<exists>v. ini ia = Returns v))
   \<and> ((\<exists>m. ini ia = Raises (Exception m)) \<longrightarrow> fst (run_initializer ini ia) = Inr False)
   \<and> (fst (run_initializer ini ia) = Inr False \<longrightarrow> (\<exists>m. ini ia = Raises (Exception m)))
   \<and> (\<forall>m. fst (run_initializer ini ia) \<noteq> Inl (Exception m))
   \<and> (\<forall>m. ini ia = Raises (Exception m) \<longrightarrow> snd (run_initializer ini ia) = [Exception m])"
  by (auto simp add: run_initializer_def split: call_result.splits raised.splits)

theorem run_initializer_result_witness:
  "broken_initializer [] = Raises (Exception ''BOOM!'')
   \<and> fst (run_initializer broken_initializer []) = Inr False
   \<and> snd (run_initializer broken_initializer []) = [Exception ''BOOM!'']
   \<and> fst (run_initializer plain_initializer [PyInt 1]) = Inr True"
proof -
  have h1: "broken_initializer [] = Raises (Exception ''BOOM!'')"
    by (simp add: broken_initializer_def)
  have h2: "plain_initializer [PyInt 1] = Returns PyNone"
    by (simp add: plain_initializer_def)
  from h1 h2
    run_initializer_result [where ini = broken_initializer and ia = "[]"]
    run_initializer_result [where ini = plain_initializer and ia = "[PyInt 1]"]
  show ?thesis by blast
qed

lemma stop_pool_simps [simp]:
  "pool_context (stop_pool p) = pool_context p"
  "pool_loops (stop_pool p) = pool_loops p"
  "pool_task_counter (stop_pool p) = pool_task_counter p"
  "allocated (stop_pool p) = allocated p"
  "stop_pool_calls (stop_pool p) = Suc (stop_pool_calls p)"
  by (simp_all add: stop_pool_def)

text \<open>
  C3 as stated fails: \<open>close\<close> and \<open>stop\<close> assign the state without looking at it. A
  stopped pool that is closed is \<open>CLOSED\<close>; a pool that a dead loop has put in \<open>ERROR\<close> is
  \<open>STOPPED\<close> after \<open>stop\<close> and \<open>CLOSED\<close> after \<open>close\<close>.
\<close>

theorem terminal_states_left_counterexample:
  "pool_state_of (stop started_pool) = STOPPED
   \<and> pool_state_of (close (stop started_pool)) = CLOSED
   \<and> pool_state_of (snd (active 2 (observe loop_died started_pool))) = ERROR
   \<and> pool_state_of (stop (snd (active 2 (observe loop_died started_pool)))) = STOPPED
   \<and> pool_state_of (close (snd (active 2 (observe loop_died started_pool)))) = CLOSED"
  by (simp add: stop_def close_def active_snd refreshed_state)

text \<open>
  C3, amended. Once the state is \<open>ERROR\<close>, \<open>schedule\<close>, \<open>active\<close> and \<open>join\<close> leave it
  \<open>ERROR\<close>. Once it is \<open>STOPPED\<close>, \<open>join\<close> leaves it \<open>STOPPED\<close>, and \<open>schedule\<close> and \<open>active\<close>
  leave it \<open>STOPPED\<close> when every loop is alive and never move it anywhere but to \<open>ERROR\<close>.
  \<open>close\<close> and \<open>stop\<close> set \<open>CLOSED\<close> and \<open>STOPPED\<close> from every state.
\<close>

theorem terminal_states_sinks_of_refresh:
  "(pool_state_of p = ERROR \<longrightarrow>
      pool_state_of (snd (schedule n f a k t p)) = ERROR
      \<and> pool_state_of (snd (active n p)) = ERROR
      \<and> join n tmo ws p = Some (Inr (), stop_pool p, ws)
      \<and> pool_state_of (stop_pool p) = ERROR)
   \<and> (pool_state_of p = STOPPED \<longrightarrow>
      join n tmo ws p = Some (Inr (), stop_pool p, ws)
      \<and> pool_state_of (stop_pool p) = STOPPED
      \<and> (pool_state_of (snd (schedule n f a k t p)) = STOPPED
           \<or> pool_state_of (snd (schedule n f a k t p)) = ERROR)
      \<and> (pool_state_of (snd (active n p)) = STOPPED
           \<or> pool_state_of (snd (active n p)) = ERROR)
      \<and> (all_alive (pool_loops p) \<longrightarrow>
            pool_state_of (snd (schedule n f a k t p)) = STOPPED
            \<and> pool_state_of (snd (active n p)) = STOPPED))
   \<and> pool_state_of (close p) = CLOSED
   \<and> pool_state_of (stop p) = STOPPED"
  by (simp add: schedule_state active_snd refreshed_state close_def stop_def)

theorem terminal_states_sinks_of_refresh_witness:
  "pool_state_of (snd (active 2 (observe loop_died started_pool))) = ERROR
   \<and> pool_state_of (snd (schedule 2 ''function'' [PyInt 1] [] 0
        (snd (active 2 (observe loop_died started_pool))))) = ERROR
   \<and> pool_state_of (stop started_pool) = STOPPED
   \<and> all_alive (pool_loops (stop started_pool))
   \<and> pool_state_of (snd (active 2 (stop started_pool))) = STOPPED
   \<and> join 2 None [] (stop started_pool) = Some (Inr (), stop_pool (stop started_pool), [])"
proof -
  have h1: "pool_state_of (snd (active 2 (observe loop_died started_pool))) = ERROR"
    by (simp add: active_snd refreshed_state)
  have h2: "pool_state_of (stop started_pool) = STOPPED" by (simp add: stop_def)
  have h3: "all_alive (pool_loops (stop started_pool))" by (simp add: stop_def all_alive_def)
  from h1 h2 h3
    terminal_states_sinks_of_refresh [where p = "snd (active 2 (observe loop_died started_pool))"
      and n = 2 and f = "''function''" and a = "[PyInt 1]" and k = "[]" and t = 0
      and tmo = None and ws = "[]"]
    terminal_states_sinks_of_refresh [where p = "stop started_pool"
      and n = 2 and f = "''function''" and a = "[PyInt 1]" and k = "[]" and t = 0
      and tmo = None and ws = "[]"]
  show ?thesis by blast
qed

lemma tasks_from_ids: "map task_id (tasks_from c h rs) = [c ..< c + length rs]"
  by (induction rs arbitrary: c h) (simp_all add: task_of_def Task_init_def upt_rec)

lemma tasks_from_futures:
  "map (\<lambda>t. future_id (future t)) (tasks_from c h rs) = [h ..< h + length rs]"
  by (induction rs arbitrary: c h) (simp_all add: task_of_def Task_init_def Future_init_def upt_rec)

lemma accept_again:
  assumes "pool_state_of (update_pool_state n p) = RUNNING"
  shows "pool_state_of (update_pool_state m (snd (schedule n f a k t p))) = RUNNING"
proof -
  have "pool_state_of (snd (schedule n f a k t p)) = RUNNING"
    using assms by (simp add: schedule_state)
  moreover have "all_alive (pool_loops (snd (schedule n f a k t p)))"
    using assms by (simp add: schedule_loops refreshed_loops refreshed_state split: if_splits)
  ultimately show ?thesis by (simp add: refreshed_state)
qed

lemma schedule_accept_fields:
  assumes "pool_state_of (update_pool_state n p) = RUNNING"
  shows "fst (schedule n f a k t p) = Inr (Future_init (allocated p))"
    and "items (task_queue (pool_context (snd (schedule n f a k t p)))) =
           items (task_queue (pool_context p))
           @ [Task_init (pool_task_counter p) (Future_init (allocated p)) t
                \<lparr>payload_function = f, payload_args = a, payload_kwargs = k\<rparr>]"
    and "unfinished_tasks (task_queue (pool_context (snd (schedule n f a k t p)))) =
           Suc (unfinished_tasks (task_queue (pool_context p)))"
    and "pool_task_counter (snd (schedule n f a k t p)) = Suc (pool_task_counter p)"
    and "allocated (snd (schedule n f a k t p)) = Suc (allocated p)"
    and "stop_pool_calls (snd (schedule n f a k t p)) = stop_pool_calls p"
  using assms by (simp_all add: schedule_accept put_def)

lemma schedule_each_accept:
  "pool_state_of (update_pool_state n p) = RUNNING \<Longrightarrow>
   fst (schedule_each n rs p) = map (\<lambda>t. Inr (future t)) (tasks_from (pool_task_counter p) (allocated p) rs)
   \<and> items (task_queue (pool_context (snd (schedule_each n rs p)))) =
       items (task_queue (pool_context p)) @ tasks_from (pool_task_counter p) (allocated p) rs
   \<and> pool_task_counter (snd (schedule_each n rs p)) = pool_task_counter p + length rs
   \<and> allocated (snd (schedule_each n rs p)) = allocated p + length rs"
proof (induction rs arbitrary: p)
  case Nil
  then show ?case by simp
next
  case (Cons r rs)
  let ?s = "schedule n (req_function r) (req_args r) (req_kwargs r) (req_timeout r) p"
  note f = schedule_accept_fields [OF Cons.prems, of "req_function r" "req_args r" "req_kwargs r" "req_timeout r"]
  have again: "pool_state_of (update_pool_state n (snd ?s)) = RUNNING"
    using Cons.prems by (rule accept_again)
  from Cons.IH [OF again] f show ?case
    by (simp add: split_def task_of_def Task_init_def)
qed


text \<open>
  C5 as stated fails: a pool whose state is \<open>RUNNING\<close> but one of whose loops has died is
  put in \<open>ERROR\<close> by the refresh at the head of \<open>schedule\<close>, which raises and puts nothing
  in the queue.
\<close>

theorem schedule_running_dead_loop_counterexample:
  "pool_state_of (observe loop_died started_pool) = RUNNING
   \<and> fst (schedule 2 ''function'' [PyInt 1] [] 0 (observe loop_died started_pool))
        = Inl (RuntimeError ''Unexpected error within the Pool'')
   \<and> items (task_queue (pool_context
        (snd (schedule 2 ''function'' [PyInt 1] [] 0 (observe loop_died started_pool))))) = []"
  by (simp add: schedule_raise refreshed_state)

text \<open>
  C5, amended. On a pool in state \<open>RUNNING\<close> whose loops are all alive, \<open>schedule\<close> returns
  a new future in state \<open>PENDING\<close>, which no queued task holds, and appends to the queue
  exactly one task with that future, the given timeout, the payload, timestamp 0 and
  worker id 0, numbered by the task counter, which goes up by one; the pool stays as it
  was otherwise. A row of calls appends their tasks in the order of the calls, with
  consecutive numbers and distinct futures; on a new pool the numbers are 0, 1, 2, ...
\<close>

theorem schedule_enqueues_task:
  "(pool_state_of p = RUNNING \<and> all_alive (pool_loops p) \<longrightarrow>
      fst (schedule n f a k t p) = Inr (Future_init (allocated p))
      \<and> future_state (Future_init (allocated p)) = PENDING
      \<and> (futures_allocated p \<longrightarrow>
            Future_init (allocated p) \<notin> future ` set (items (task_queue (pool_context p)))
            \<and> futures_allocated (snd (schedule n f a k t p)))
      \<and> items (task_queue (pool_context (snd (schedule n f a k t p)))) =
           items (task_queue (pool_context p))
           @ [\<lparr>task_id = pool_task_counter p, future = Future_init (allocated p), timeout = t,
               payload = \<lparr>payload_function = f, payload_args = a, payload_kwargs = k\<rparr>,
               timestamp = 0, worker_id = 0\<rparr>]
      \<and> unfinished_tasks (task_queue (pool_context (snd (schedule n f a k t p)))) =
           Suc (unfinished_tasks (task_queue (pool_context p)))
      \<and> pool_task_counter (snd (schedule n f a k t p)) = Suc (pool_task_counter p)
      \<and> pool_state_of (snd (schedule n f a k t p)) = RUNNING
      \<and> pool_loops (snd (schedule n f a k t p)) = pool_loops p
      \<and> fst (schedule_each n rs p) =
           map (\<lambda>t. Inr (future t)) (tasks_from (pool_task_counter p) (allocated p) rs)
      \<and> items (task_queue (pool_context (snd (schedule_each n rs p)))) =
           items (task_queue (pool_context p))
           @ tasks_from (pool_task_counter p) (allocated p) rs)
   \<and> map task_id (tasks_from c h rs) = [c ..< c + length rs]
   \<and> distinct (map (\<lambda>t. future_id (future t)) (tasks_from c h rs))
   \<and> map payload (tasks_from c h rs) =
        map (\<lambda>r. \<lparr>payload_function = req_function r, payload_args = req_args r,
                   payload_kwargs = req_kwargs r\<rparr>) rs
   \<and> map task_id (items (task_queue (pool_context
        (snd (schedule_each n rs (BasePool_init mw mt ini ia)))))) = [0 ..< length rs]"
proof -
  have payloads: "map payload (tasks_from c h rs) =
        map (\<lambda>r. \<lparr>payload_function = req_function r, payload_args = req_args r,
                   payload_kwargs = req_kwargs r\<rparr>) rs" for c h
    by (induction rs arbitrary: c h) (simp_all add: task_of_def Task_init_def)
  have new: "map task_id (items (task_queue (pool_context
        (snd (schedule_each n rs (BasePool_init mw mt ini ia)))))) = [0 ..< length rs]"
  proof -
    have "pool_state_of (update_pool_state n (BasePool_init mw mt ini ia)) = RUNNING"
      by (simp add: refreshed_state)
    from schedule_each_accept [OF this, of rs] show ?thesis
      by (simp add: tasks_from_ids BasePool_init_def PoolContext_init_def Queue_init_def)
  qed
  have run: "pool_state_of (update_pool_state n p) = RUNNING"
    if "pool_state_of p = RUNNING" "all_alive (pool_loops p)"
    using that by (simp add: refreshed_state)
  have fresh: "Future_init (allocated p) \<notin> future ` set (items (task_queue (pool_context p)))"
    if inv: "futures_allocated p"
  proof
    assume "Future_init (allocated p) \<in> future ` set (items (task_queue (pool_context p)))"
    then obtain x where x: "x \<in> set (items (task_queue (pool_context p)))"
      and fx: "future x = Future_init (allocated p)" by auto
    from fx have "future_id (future x) = allocated p" by (simp add: Future_init_def)
    moreover from inv x have "future_id (future x) < allocated p"
      by (simp add: futures_allocated_def list_all_iff)
    ultimately show False by simp
  qed
  have kept: "futures_allocated (snd (schedule n f a k t p))"
    if "pool_state_of p = RUNNING" "all_alive (pool_loops p)" "futures_allocated p"
    using that schedule_accept_fields [OF run, of f a k t]
    by (auto simp add: futures_allocated_def list_all_iff Task_init_def Future_init_def)
  have one: "pool_state_of (snd (schedule n f a k t p)) = RUNNING
      \<and> pool_loops (snd (schedule n f a k t p)) = pool_loops p"
    if "pool_state_of p = RUNNING" "all_alive (pool_loops p)"
    using that by (simp add: schedule_state schedule_loops refreshed_state refreshed_loops)
  show ?thesis
    using payloads new fresh kept one schedule_accept_fields [OF run, of f a k t]
      schedule_each_accept [OF run, of rs]
    by (simp add: tasks_from_ids tasks_from_futures Future_init_def Task_init_def)
qed

theorem schedule_enqueues_task_witness:
  "pool_state_of started_pool = RUNNING \<and> all_alive (pool_loops started_pool)
   \<and> futures_allocated started_pool
   \<and> fst (schedule 2 ''function'' [PyInt 1] [] 0 started_pool) = Inr (Future_init 0)
   \<and> items (task_queue (pool_context (snd (schedule 2 ''function'' [PyInt 1] [] 0 started_pool))))
       = [\<lparr>task_id = 0, future = Future_init 0, timeout = 0,
            payload = \<lparr>payload_function = ''function'', payload_args = [PyInt 1],
                        payload_kwargs = []\<rparr>,
            timestamp = 0, worker_id = 0\<rparr>]
   \<and> map task_id (items (task_queue (pool_context
        (snd (schedule_each 2 [add_one, add_one, add_one] started_pool))))) = [0, 1, 2]"
proof -
  have h1: "pool_state_of started_pool = RUNNING" by simp
  have h2: "all_alive (pool_loops started_pool)" by (simp add: all_alive_def)
  have h3: "futures_allocated started_pool" by (simp add: futures_allocated_def)
  have e: "[0 ..< 0 + length [add_one, add_one, add_one]] = [0, 1, 2]" by (simp add: upt_rec)
  from h1 h2 h3
    schedule_enqueues_task [where p = started_pool and n = 2 and f = "''function''"
      and a = "[PyInt 1]" and k = "[]" and t = 0 and rs = "[add_one, add_one, add_one]"
      and c = 0 and h = 0]
  show ?thesis by (simp add: e)
qed

lemma active_closed:
  "pool_state_of p = CLOSED \<Longrightarrow>
   active n (observe w p) =
     (if all_alive (loops_now w) then (True, observe w p)
      else (False, set_state ERROR (observe w p)))"
  by (simp add: active_def Let_def update_pool_state_eq)

lemma wait_loop_look:
  "pool_state_of p = CLOSED \<Longrightarrow>
   wait_loop n tmo (w # rest) p =
     (if \<not> all_alive (loops_now w) then Some (Inr (), set_state ERROR (observe w p), rest)
      else if exceeded tmo w
      then Some (Inl (TimeoutError ''Tasks are still being executed''), observe w p, rest)
      else if unfinished_now w \<noteq> 0 then wait_loop n tmo rest (observe w p)
      else Some (Inr (), observe w p, rest))"
  by (simp add: active_closed)

lemma wait_loop_pending:
  "pool_state_of p = CLOSED \<Longrightarrow> list_all (pending tmo) pre \<Longrightarrow>
   wait_loop n tmo pre p = None
   \<and> wait_loop n tmo (pre @ w # rest) p = wait_loop n tmo (w # rest) p"
proof (induction pre arbitrary: p)
  case Nil
  then show ?case by simp
next
  case (Cons x pre)
  from Cons.prems have x: "pending tmo x" and pre: "list_all (pending tmo) pre"
    by simp_all
  have c: "pool_state_of (observe x p) = CLOSED" using Cons.prems by simp
  from x have step: "wait_loop n tmo (x # ys) p = wait_loop n tmo ys (observe x p)" for ys
    using Cons.prems(1) by (simp add: wait_loop_look pending_def del: wait_loop.simps)
  have "wait_loop n tmo (w # rest) (observe x p) = wait_loop n tmo (w # rest) p"
    using Cons.prems(1) c by (simp add: wait_loop_look del: wait_loop.simps)
  with Cons.IH [OF c pre] step show ?case by (simp del: wait_loop.simps)
qed

lemma join_closed:
  "pool_state_of p = CLOSED \<Longrightarrow>
   join n tmo ws p =
     (case wait_queue_depletion n tmo ws p of
        None \<Rightarrow> None
      | Some (Inl e, p1, ws1) \<Rightarrow> Some (Inl e, p1, ws1)
      | Some (Inr u, p1, ws1) \<Rightarrow> Some (Inr (), stop_pool (stop p1), ws1))"
  by (subst join.simps) (simp add: stop_def split: option.splits sum.splits prod.splits)

lemma stop_after [simp]:
  "stop (set_state s p) = stop p"
  "pool_state_of (stop p) = STOPPED"
  "pool_state_of (stop_pool (stop p)) = STOPPED"
  "stop_pool_calls (stop_pool (stop p)) = Suc (stop_pool_calls p)"
  "task_queue (pool_context (stop p)) = task_queue (pool_context p)"
  "stop_pool_calls (stop p) = stop_pool_calls p"
  by (simp_all add: stop_def)

lemma join_closed_waiting:
  assumes c: "pool_state_of p = CLOSED" and pre: "list_all (pending tmo) pre"
  shows "join n tmo pre p = None"
proof -
  have "wait_queue_depletion n tmo pre p = None"
    using wait_loop_pending [OF c pre, of n] by (simp add: wait_queue_depletion_def)
  then show ?thesis by (simp add: join_closed [OF c] del: join.simps)
qed

lemma join_closed_decided:
  assumes c: "pool_state_of p = CLOSED" and pre: "list_all (pending tmo) pre"
    and w: "\<not> pending tmo w"
  shows "join n tmo (pre @ w # rest) p =
     (if \<not> all_alive (loops_now w) then Some (Inr (), stop_pool (stop (observe w p)), rest)
      else if exceeded tmo w
      then Some (Inl (TimeoutError ''Tasks are still being executed''), observe w p, rest)
      else Some (Inr (), stop_pool (stop (observe w p)), rest))"
proof -
  have "wait_queue_depletion n tmo (pre @ w # rest) p = wait_loop n tmo (w # rest) p"
    using wait_loop_pending [OF c pre, of n w rest] by (simp add: wait_queue_depletion_def)
  also have "\<dots> =
     (if \<not> all_alive (loops_now w) then Some (Inr (), set_state ERROR (observe w p), rest)
      else if exceeded tmo w
      then Some (Inl (TimeoutError ''Tasks are still being executed''), observe w p, rest)
      else Some (Inr (), observe w p, rest))"
    using w by (auto simp add: wait_loop_look [OF c] pending_def simp del: wait_loop.simps)
  finally show ?thesis by (simp add: join_closed [OF c] del: join.simps)
qed

lemma join_closed_returns:
  assumes c: "pool_state_of p = CLOSED" and ex: "\<exists>w\<in>set ws. \<not> pending tmo w"
  shows "join n tmo ws p \<noteq> None"
proof -
  from ex obtain pre w rest where ws: "ws = pre @ w # rest"
    and w: "\<not> pending tmo w" and pre: "\<forall>x\<in>set pre. pending tmo x"
    using split_list_first_prop [of ws "\<lambda>w. \<not> pending tmo w"] by auto
  from pre have "list_all (pending tmo) pre" by (simp add: list_all_iff)
  from join_closed_decided [OF c this w, of n rest] show ?thesis
    by (simp add: ws del: join.simps)
qed

lemma busy_closed_pool_simps [simp]:
  "pool_state_of busy_closed_pool = CLOSED"
  "length (items (task_queue (pool_context busy_closed_pool))) = 3"
proof -
  have r: "pool_state_of (update_pool_state 2 new_pool) = RUNNING"
    by (simp add: refreshed_state)
  show "pool_state_of busy_closed_pool = CLOSED"
    by (simp add: busy_closed_pool_def close_def)
  show "length (items (task_queue (pool_context busy_closed_pool))) = 3"
    using schedule_each_accept [OF r, of "[add_one, add_one, add_one]"]
    by (simp add: busy_closed_pool_def close_def)
qed

lemma look_simps [simp]:
  "elapsed still_busy = 1" "elapsed depleted = 2"
  "all_alive (loops_now still_busy)" "all_alive (loops_now depleted)"
  "unfinished_now still_busy = 2" "unfinished_now depleted = 0"
  by (simp_all add: still_busy_def depleted_def all_alive_def)

text \<open>
  C2 as stated fails for a \<open>CLOSED\<close> pool: \<open>join\<close> does not always wait until the queue has
  no unfinished tasks. The wait runs \<open>while self.active\<close>; when a loop has died the refresh
  sets \<open>ERROR\<close>, the pool is not active, and the wait is over at once. Here \<open>join\<close> without
  a timeout returns normally, the pool \<open>STOPPED\<close>, while three tasks are unfinished.
\<close>

theorem join_returns_with_unfinished_counterexample:
  "pool_state_of busy_closed_pool = CLOSED
   \<and> length (items (task_queue (pool_context busy_closed_pool))) = 3
   \<and> join 2 None [loop_died] busy_closed_pool
        = Some (Inr (), stop_pool (stop (observe loop_died busy_closed_pool)), [])
   \<and> unfinished_tasks (task_queue (pool_context
        (stop_pool (stop (observe loop_died busy_closed_pool))))) = 3"
proof -
  have c: "pool_state_of busy_closed_pool = CLOSED" by simp
  have w: "\<not> pending None loop_died" by (simp add: pending_def)
  from join_closed_decided [OF c _ w, of "[]" 2 "[]"] show ?thesis
    by (simp del: join.simps)
qed

text \<open>
  C2, amended. \<open>join\<close> on a \<open>RUNNING\<close> pool raises
  \<open>RuntimeError('The Pool is still running')\<close>; in a state other than \<open>RUNNING\<close> and
  \<open>CLOSED\<close> it calls \<open>_stop_pool\<close> at once. On a \<open>CLOSED\<close> pool it polls: while the rounds
  find every loop alive, the timeout not exceeded and tasks unfinished, it goes on waiting
  (no result as long as there is no other round); the first other round decides. If a loop
  is not alive the wait is over whatever the queue holds; else if the difference
  \<open>time.time() - tick\<close> that the round computes is greater than the given timeout,
  \<open>TimeoutError\<close> is raised and the pool stays \<open>CLOSED\<close>; else the queue has no unfinished
  tasks and the wait is over. After the wait, \<open>stop\<close> and \<open>join\<close> follow: the pool is
  \<open>STOPPED\<close> and \<open>_stop_pool\<close> was called once. With a round that is not a waiting one,
  \<open>join\<close> returns.
\<close>

theorem join_cases:
  "(pool_state_of p = RUNNING \<longrightarrow>
      join n tmo ws p = Some (Inl (RuntimeError ''The Pool is still running''), p, ws))
   \<and> (pool_state_of p \<noteq> RUNNING \<and> pool_state_of p \<noteq> CLOSED \<longrightarrow>
        join n tmo ws p = Some (Inr (), stop_pool p, ws)
        \<and> pool_state_of (stop_pool p) = pool_state_of p
        \<and> stop_pool_calls (stop_pool p) = Suc (stop_pool_calls p))
   \<and> (pool_state_of p = CLOSED \<and> list_all (pending tmo) pre \<longrightarrow>
        join n tmo pre p = None
        \<and> (\<not> all_alive (loops_now w) \<longrightarrow>
              join n tmo (pre @ w # rest) p
                = Some (Inr (), stop_pool (stop (observe w p)), rest))
        \<and> (all_alive (loops_now w) \<and> exceeded tmo w \<longrightarrow>
              join n tmo (pre @ w # rest) p
                = Some (Inl (TimeoutError ''Tasks are still being executed''),
                        observe w p, rest)
              \<and> pool_state_of (observe w p) = CLOSED)
        \<and> (all_alive (loops_now w) \<and> \<not> exceeded tmo w \<and> unfinished_now w = 0 \<longrightarrow>
              join n tmo (pre @ w # rest) p
                = Some (Inr (), stop_pool (stop (observe w p)), rest)
              \<and> unfinished_tasks (task_queue (pool_context
                   (stop_pool (stop (observe w p))))) = 0))
   \<and> (pool_state_of p = CLOSED \<and> (\<exists>w\<in>set ws. \<not> pending tmo w) \<longrightarrow>
        join n tmo ws p \<noteq> None)
   \<and> pool_state_of (stop_pool (stop q)) = STOPPED
   \<and> stop_pool_calls (stop_pool (stop q)) = Suc (stop_pool_calls q)
   \<and> (exceeded tmo w \<longleftrightarrow> (\<exists>t. tmo = Some t \<and> elapsed w > t))"
proof -
  have closed: "join n tmo pre p = None
        \<and> (\<not> all_alive (loops_now w) \<longrightarrow>
              join n tmo (pre @ w # rest) p
                = Some (Inr (), stop_pool (stop (observe w p)), rest))
        \<and> (all_alive (loops_now w) \<and> exceeded tmo w \<longrightarrow>
              join n tmo (pre @ w # rest) p
                = Some (Inl (TimeoutError ''Tasks are still being executed''),
                        observe w p, rest)
              \<and> pool_state_of (observe w p) = CLOSED)
        \<and> (all_alive (loops_now w) \<and> \<not> exceeded tmo w \<and> unfinished_now w = 0 \<longrightarrow>
              join n tmo (pre @ w # rest) p
                = Some (Inr (), stop_pool (stop (observe w p)), rest)
              \<and> unfinished_tasks (task_queue (pool_context
                   (stop_pool (stop (observe w p))))) = 0)"
    if c: "pool_state_of p = CLOSED" and pre: "list_all (pending tmo) pre"
  proof -
    have d: "join n tmo (pre @ w # rest) p =
       (if \<not> all_alive (loops_now w) then Some (Inr (), stop_pool (stop (observe w p)), rest)
        else if exceeded tmo w
        then Some (Inl (TimeoutError ''Tasks are still being executed''), observe w p, rest)
        else Some (Inr (), stop_pool (stop (observe w p)), rest))"
      if "\<not> pending tmo w"
      using that by (rule join_closed_decided [OF c pre])
    show ?thesis
      using join_closed_waiting [OF c pre, of n] d c
      by (auto simp add: pending_def simp del: join.simps)
  qed
  have ex: "exceeded tmo w \<longleftrightarrow> (\<exists>t. tmo = Some t \<and> elapsed w > t)"
    by (cases tmo) (simp_all add: exceeded_def)
  have returns: "join n tmo ws p \<noteq> None"
    if "pool_state_of p = CLOSED" "\<exists>w\<in>set ws. \<not> pending tmo w"
    using that by (rule join_closed_returns)
  have other: "join n tmo ws p = Some (Inr (), stop_pool p, ws)"
    if "pool_state_of p \<noteq> RUNNING" "pool_state_of p \<noteq> CLOSED"
    using that by simp
  have running: "join n tmo ws p = Some (Inl (RuntimeError ''The Pool is still running''), p, ws)"
    if "pool_state_of p = RUNNING"
    using that by simp
  show ?thesis
    using closed ex returns other running
    by (simp del: join.simps)
qed

theorem join_cases_witness:
  "pool_state_of started_pool = RUNNING
   \<and> join 2 None [] started_pool
        = Some (Inl (RuntimeError ''The Pool is still running''), started_pool, [])
   \<and> pool_state_of (stop started_pool) = STOPPED
   \<and> join 2 None [] (stop started_pool) = Some (Inr (), stop_pool (stop started_pool), [])
   \<and> pool_state_of busy_closed_pool = CLOSED
   \<and> list_all (pending (Some 1)) [still_busy]
   \<and> \<not> all_alive (loops_now loop_died)
   \<and> join 2 (Some 1) [still_busy, loop_died] busy_closed_pool
        = Some (Inr (), stop_pool (stop (observe loop_died busy_closed_pool)), [])
   \<and> all_alive (loops_now depleted) \<and> exceeded (Some 1) depleted
   \<and> join 2 (Some 1) [still_busy, depleted] busy_closed_pool
        = Some (Inl (TimeoutError ''Tasks are still being executed''),
                observe depleted busy_closed_pool, [])
   \<and> list_all (pending None) [still_busy]
   \<and> \<not> exceeded None depleted \<and> unfinished_now depleted = 0
   \<and> join 2 None [still_busy, depleted] busy_closed_pool
        = Some (Inr (), stop_pool (stop (observe depleted busy_closed_pool)), [])
   \<and> join 2 None [still_busy] busy_closed_pool = None
   \<and> (\<exists>w\<in>set [still_busy, depleted]. \<not> pending None w)
   \<and> join 2 None [still_busy, depleted] busy_closed_pool \<noteq> None"
proof -
  have h1: "pool_state_of started_pool = RUNNING" by simp
  have h2: "pool_state_of (stop started_pool) = STOPPED" by (simp add: stop_def)
  have d: "STOPPED \<noteq> RUNNING" "STOPPED \<noteq> CLOSED" by simp_all
  have h3: "pool_state_of busy_closed_pool = CLOSED" by simp
  have h4: "list_all (pending (Some 1)) [still_busy]"
    by (simp add: pending_def exceeded_def)
  have h5: "\<not> all_alive (loops_now loop_died)" by simp
  have h6: "all_alive (loops_now depleted)" "exceeded (Some 1) depleted"
    by (simp_all add: exceeded_def)
  have h7: "list_all (pending None) [still_busy]"
    by (simp add: pending_def exceeded_def)
  have h8: "\<not> exceeded None depleted" "unfinished_now depleted = 0"
    by (simp_all add: exceeded_def)
  have h9: "\<exists>w\<in>set [still_busy, depleted]. \<not> pending None w"
    by (simp add: pending_def)
  note j1 = join_cases [where p = started_pool and n = 2 and tmo = None and ws = "[]"]
  note j2 = join_cases [where p = "stop started_pool" and n = 2 and tmo = None and ws = "[]"]
  note j3 = join_cases [where p = busy_closed_pool and n = 2 and tmo = "Some 1"
      and pre = "[still_busy]" and w = loop_died and rest = "[]"]
  note j4 = join_cases [where p = busy_closed_pool and n = 2 and tmo = "Some 1"
      and pre = "[still_busy]" and w = depleted and rest = "[]"]
  note j5 = join_cases [where p = busy_closed_pool and n = 2 and tmo = None
      and pre = "[still_busy]" and w = depleted and rest = "[]"
      and ws = "[still_busy, depleted]"]
  from h1 j1 have r1: "join 2 None [] started_pool
        = Some (Inl (RuntimeError ''The Pool is still running''), started_pool, [])" by blast
  from h2 d j2 have r2: "join 2 None [] (stop started_pool)
        = Some (Inr (), stop_pool (stop started_pool), [])" by metis
  from h3 h4 h5 j3 have r3: "join 2 (Some 1) ([still_busy] @ loop_died # []) busy_closed_pool
        = Some (Inr (), stop_pool (stop (observe loop_died busy_closed_pool)), [])"
    by (simp del: join.simps)
  from h3 h4 h6 j4 have r4: "join 2 (Some 1) ([still_busy] @ depleted # []) busy_closed_pool
        = Some (Inl (TimeoutError ''Tasks are still being executed''),
                observe depleted busy_closed_pool, [])"
    by (simp del: join.simps)
  from h3 h7 h6(1) h8 h9 j5 have r5: "join 2 None ([still_busy] @ depleted # []) busy_closed_pool
        = Some (Inr (), stop_pool (stop (observe depleted busy_closed_pool)), [])"
    "join 2 None [still_busy] busy_closed_pool = None"
    "join 2 None [still_busy, depleted] busy_closed_pool \<noteq> None"
    by (simp_all del: join.simps)
  from h1 h2 h3 h4 h5 h6 h7 h8 h9 r1 r2 r3 r4 r5 show ?thesis
    by (simp del: join.simps)
qed

end
